theory Spec2Isabelle
  imports Complex_Main
begin

section \<open>Data model of the conversation store\<close>

text \<open>
  The store of \<^verbatim>\<open>src/store/useChatStore.ts\<close>. A JavaScript string is a list of
  characters, \<^verbatim>\<open>Date.now()\<close> is an integer number of milliseconds, any other
  \<^verbatim>\<open>number\<close> is a real (JSON carries neither NaN nor the infinities), an optional
  field is an \<open>option\<close> (\<open>None\<close> for \<^verbatim>\<open>undefined\<close>), and the elements of
  \<^verbatim>\<open>toolsUsed: unknown[]\<close> are of an arbitrary type \<open>'u\<close>. The field \<^verbatim>\<open>id\<close>
  is called \<open>id_msg\<close>, since \<open>id\<close> is the identity function of HOL.
\<close>

datatype Role = User | Agent

datatype Theme = Light | Dark | System

record 'u Message =
  id_msg :: string
  role :: Role
  content :: string
  timestamp :: int
  toolsUsed :: "'u list option"
  processingTime :: "real option"
  isStreaming :: "bool option"
  error :: "string option"

text \<open>
  The argument of \<^verbatim>\<open>addMessage\<close>:
  \<^verbatim>\<open>Omit<Message, 'id' | 'timestamp'> & { id?: string }\<close>.
\<close>

record 'u MessageInput =
  in_id :: "string option"
  in_role :: Role
  in_content :: string
  in_toolsUsed :: "'u list option"
  in_processingTime :: "real option"
  in_isStreaming :: "bool option"
  in_error :: "string option"

text \<open>
  \<^verbatim>\<open>Partial<Message>\<close>: every key may be absent (\<open>None\<close>). A key that is present
  carries its value; for the optional fields of \<^verbatim>\<open>Message\<close> that value may itself be
  \<^verbatim>\<open>undefined\<close> (\<open>Some None\<close>), which the spread then writes.
\<close>

record 'u MessageUpdates =
  upd_id :: "string option"
  upd_role :: "Role option"
  upd_content :: "string option"
  upd_timestamp :: "int option"
  upd_toolsUsed :: "'u list option option"
  upd_processingTime :: "real option option"
  upd_isStreaming :: "bool option option"
  upd_error :: "string option option"

record UserPreferences =
  theme :: "Theme option"
  enableProfiling :: "bool option"
  userId :: "string option"

record PreferencesUpdates =
  upd_theme :: "Theme option option"
  upd_enableProfiling :: "bool option option"
  upd_userId :: "string option option"

record 'u ChatState =
  messages :: "'u Message list"
  sessionId :: string
  userPreferences :: UserPreferences
  isLoading :: bool
  streamingMessageId :: "string option"

section \<open>Store operations\<close>

text \<open>One key of an object spread \<^verbatim>\<open>{ ...old, ...updates }\<close>: a present key wins.\<close>

fun spread :: "'a \<Rightarrow> 'a option \<Rightarrow> 'a" where
  "spread old None = old"
| "spread old (Some v) = v"

text \<open>\<^verbatim>\<open>{ ...msg, ...updates }\<close>\<close>

definition spread_message :: "'u Message \<Rightarrow> 'u MessageUpdates \<Rightarrow> 'u Message" where
  "spread_message msg updates =
     \<lparr> id_msg = spread (id_msg msg) (upd_id updates),
       role = spread (role msg) (upd_role updates),
       content = spread (content msg) (upd_content updates),
       timestamp = spread (timestamp msg) (upd_timestamp updates),
       toolsUsed = spread (toolsUsed msg) (upd_toolsUsed updates),
       processingTime = spread (processingTime msg) (upd_processingTime updates),
       isStreaming = spread (isStreaming msg) (upd_isStreaming updates),
       error = spread (error msg) (upd_error updates) \<rparr>"

text \<open>
  \<^verbatim>\<open>addMessage\<close>. The two readings of the environment are arguments: \<open>uuid\<close> is
  what \<^verbatim>\<open>uuidv4()\<close> returns when it is called (only when the caller gave no id) and
  \<open>now\<close> is \<^verbatim>\<open>Date.now()\<close>. The created message is returned with the new state.
\<close>

definition newMessage :: "'u MessageInput \<Rightarrow> string \<Rightarrow> int \<Rightarrow> 'u Message" where
  "newMessage message uuid now =
     \<lparr> id_msg = (case in_id message of Some i \<Rightarrow> i | None \<Rightarrow> uuid),
       role = in_role message,
       content = in_content message,
       timestamp = now,
       toolsUsed = in_toolsUsed message,
       processingTime = in_processingTime message,
       isStreaming = in_isStreaming message,
       error = in_error message \<rparr>"

definition addMessage ::
  "'u MessageInput \<Rightarrow> string \<Rightarrow> int \<Rightarrow> 'u ChatState \<Rightarrow> 'u Message \<times> 'u ChatState" where
  "addMessage message uuid now state =
     (newMessage message uuid now,
      state\<lparr>messages := messages state @ [newMessage message uuid now]\<rparr>)"

definition updateMessage :: "string \<Rightarrow> 'u MessageUpdates \<Rightarrow> 'u ChatState \<Rightarrow> 'u ChatState" where
  "updateMessage i updates state =
     state\<lparr>messages :=
       map (\<lambda>msg. if id_msg msg = i then spread_message msg updates else msg) (messages state)\<rparr>"

definition setStreamingMessageId :: "string option \<Rightarrow> 'u ChatState \<Rightarrow> 'u ChatState" where
  "setStreamingMessageId i state = state\<lparr>streamingMessageId := i\<rparr>"

definition setLoading :: "bool \<Rightarrow> 'u ChatState \<Rightarrow> 'u ChatState" where
  "setLoading loading state = state\<lparr>isLoading := loading\<rparr>"

definition setSessionId :: "string \<Rightarrow> 'u ChatState \<Rightarrow> 'u ChatState" where
  "setSessionId sid state = state\<lparr>sessionId := sid\<rparr>"

definition updateUserPreferences :: "PreferencesUpdates \<Rightarrow> 'u ChatState \<Rightarrow> 'u ChatState" where
  "updateUserPreferences preferences state =
     state\<lparr>userPreferences :=
       \<lparr> theme = spread (theme (userPreferences state)) (upd_theme preferences),
         enableProfiling =
           spread (enableProfiling (userPreferences state)) (upd_enableProfiling preferences),
         userId = spread (userId (userPreferences state)) (upd_userId preferences) \<rparr>\<rparr>"

definition clearMessages :: "'u ChatState \<Rightarrow> 'u ChatState" where
  "clearMessages state = state\<lparr>messages := []\<rparr>"

text \<open>\<^verbatim>\<open>resetSession\<close>; \<open>uuid\<close> is what \<^verbatim>\<open>generateSessionId()\<close> returns.\<close>

definition resetSession :: "string \<Rightarrow> 'u ChatState \<Rightarrow> 'u ChatState" where
  "resetSession uuid state =
     state\<lparr>messages := [], sessionId := uuid, isLoading := False, streamingMessageId := None\<rparr>"

text \<open>
  Modelled from the spec: \<^verbatim>\<open>uuidv4\<close> of the library \<^verbatim>\<open>uuid\<close>, which is not among
  the sources. The spec calls what it returns a fresh unique identifier, for a message
  as for a session. In the model an identifier is fresh when it differs from every
  identifier it is given, those in use and those generated before: the generator
  returns a string that is longer than each of them. Of that string nothing but the
  difference is used.
\<close>

fun longest :: "string list \<Rightarrow> nat" where
  "longest [] = 0"
| "longest (x # xs) = max (length x) (longest xs)"

definition uuidv4 :: "string list \<Rightarrow> string" where
  "uuidv4 taken = replicate (Suc (longest taken)) (CHR ''0'')"

text \<open>\<^verbatim>\<open>const generateSessionId = () => uuidv4()\<close>\<close>

definition generateSessionId :: "string list \<Rightarrow> string" where
  "generateSessionId taken = uuidv4 taken"

text \<open>The identifiers in use in the store: its session id and the ids of its messages.\<close>

definition inUse :: "'u ChatState \<Rightarrow> string list" where
  "inUse state = sessionId state # map id_msg (messages state)"

text \<open>
  \<^verbatim>\<open>resetSession\<close> with its call of \<^verbatim>\<open>generateSessionId\<close>: \<open>taken\<close> are the
  identifiers generated before, and the result carries them on, together with the new
  one and those that were in use.
\<close>

definition resetSession_generating ::
  "string list \<Rightarrow> 'u ChatState \<Rightarrow> 'u ChatState \<times> string list" where
  "resetSession_generating taken state =
     (resetSession (generateSessionId (inUse state @ taken)) state,
      generateSessionId (inUse state @ taken) # inUse state @ taken)"

text \<open>The state the store is created with; \<open>uuid\<close> is the generated session id.\<close>

definition initialState :: "string \<Rightarrow> 'u ChatState" where
  "initialState uuid =
     \<lparr> messages = [],
       sessionId = uuid,
       userPreferences =
         \<lparr> theme = Some System, enableProfiling = Some False, userId = Some ''default_user'' \<rparr>,
       isLoading = False,
       streamingMessageId = None \<rparr>"

text \<open>
  \<^verbatim>\<open>partialize\<close>: the part of the state that the \<^verbatim>\<open>persist\<close> middleware writes
  to local storage under the name \<^verbatim>\<open>vantage-chat-storage\<close>.
\<close>

record 'u Snapshot =
  snap_messages :: "'u Message list"
  snap_sessionId :: string
  snap_userPreferences :: UserPreferences

definition partialize :: "'u ChatState \<Rightarrow> 'u Snapshot" where
  "partialize state =
     \<lparr> snap_messages = messages state,
       snap_sessionId = sessionId state,
       snap_userPreferences = userPreferences state \<rparr>"

text \<open>
  Modelled from the spec: the restoring half of the \<^verbatim>\<open>persist\<close> middleware, which is
  library code (zustand) and is not among the sources. The spec: on startup, if a
  previously persisted snapshot exists, it is loaded and merged as the initial state
  for \<^verbatim>\<open>messages\<close>, \<^verbatim>\<open>sessionId\<close> and \<^verbatim>\<open>userPreferences\<close>; absent a snapshot,
  defaults are used. The storage medium keeps the snapshot as it was written; the JSON
  text in between is outside this model.
\<close>

definition restore :: "'u Snapshot option \<Rightarrow> string \<Rightarrow> 'u ChatState" where
  "restore persisted uuid =
     (case persisted of
        None \<Rightarrow> initialState uuid
      | Some snap \<Rightarrow>
          (initialState uuid)
            \<lparr> messages := snap_messages snap,
              sessionId := snap_sessionId snap,
              userPreferences := snap_userPreferences snap \<rparr>)"

text \<open>A run of \<^verbatim>\<open>addMessage\<close> calls, each with its argument and its two readings.\<close>

fun addMessages :: "('u MessageInput \<times> string \<times> int) list \<Rightarrow> 'u ChatState \<Rightarrow> 'u ChatState" where
  "addMessages [] state = state"
| "addMessages ((message, uuid, now) # calls) state =
     addMessages calls (snd (addMessage message uuid now state))"

text \<open>The id a call assigns (the caller's, or else the generated one) and its clock reading.\<close>

fun assigned :: "'u MessageInput \<times> string \<times> int \<Rightarrow> string" where
  "assigned (message, uuid, now) = (case in_id message of Some i \<Rightarrow> i | None \<Rightarrow> uuid)"

fun clock :: "'u MessageInput \<times> string \<times> int \<Rightarrow> int" where
  "clock (message, uuid, now) = now"

section \<open>The backend collaborator (\<^verbatim>\<open>services/api.ts\<close>)\<close>

record ChatRequest =
  req_message :: string
  req_session_id :: "string option"
  req_user_id :: string
  req_enable_profiling :: bool

text \<open>\<^verbatim>\<open>ChatResponse\<close>; the optional \<^verbatim>\<open>performance_stats\<close> is never read.\<close>

record 'u ChatResponse =
  response :: string
  session_id :: string
  processing_time :: real
  tools_used :: "'u list"

text \<open>
  A \<^verbatim>\<open>ValidationError\<close> of the backend; the entries of \<^verbatim>\<open>loc\<close> are taken as
  already printed, since \<^verbatim>\<open>join\<close> prints them.
\<close>

record ValidationError =
  loc :: "string list"
  msg :: string
  err_type :: string

text \<open>
  The body of an error response is read as \<^verbatim>\<open>any\<close>; of it only \<^verbatim>\<open>detail\<close> (a list
  of validation errors or a text) and \<^verbatim>\<open>message\<close> are looked at.
\<close>

datatype Detail = DetailList "ValidationError list" | DetailText string

record ErrorBody =
  detail :: "Detail option"
  body_message :: "string option"

text \<open>
  What the response interceptor is handed: a response with an error status and a body,
  a request that got no response (with \<^verbatim>\<open>error.code\<close>), or neither.
\<close>

datatype AxiosFailure =
  HttpResponse nat "ErrorBody option"
| NoResponse "string option"
| SetupFailure

text \<open>\<^verbatim>\<open>Array.prototype.join\<close>\<close>

fun join :: "string \<Rightarrow> string list \<Rightarrow> string" where
  "join sep [] = []"
| "join sep [x] = x"
| "join sep (x # y # ys) = x @ sep @ join sep (y # ys)"

text \<open>
  \<^verbatim>\<open>data?.detail || data?.message || errorMessage\<close>, turned into a string by the
  constructor of \<^verbatim>\<open>Error\<close>: an array is truthy whatever its length and prints its
  elements, each an object, separated by commas.
\<close>

definition detailOrMessage :: "ErrorBody option \<Rightarrow> string \<Rightarrow> string" where
  "detailOrMessage data dflt =
     (case data of
        None \<Rightarrow> dflt
      | Some d \<Rightarrow>
          (case detail d of
             Some (DetailList errs) \<Rightarrow> join '','' (map (\<lambda>_. ''[object Object]'') errs)
           | Some (DetailText t) \<Rightarrow>
               (if t \<noteq> [] then t
                else (case body_message d of
                        Some m \<Rightarrow> (if m \<noteq> [] then m else dflt)
                      | None \<Rightarrow> dflt))
           | None \<Rightarrow>
               (case body_message d of
                  Some m \<Rightarrow> (if m \<noteq> [] then m else dflt)
                | None \<Rightarrow> dflt)))"

text \<open>The message the response interceptor computes for the \<^verbatim>\<open>ApiError\<close> it rejects with.\<close>

definition errorMessage :: "AxiosFailure \<Rightarrow> string" where
  "errorMessage failure =
     (case failure of
        HttpResponse status data \<Rightarrow>
          (if status = 400 then ''Bad request. Please check your input.''
           else if status = 401 then ''Unauthorized. Please login again.''
           else if status = 403 then ''You do not have permission to perform this action.''
           else if status = 404 then ''The requested resource was not found.''
           else if status = 422 then
             (case data of
                Some d \<Rightarrow>
                  (case detail d of
                     Some (DetailList errs) \<Rightarrow>
                       join '', '' (map (\<lambda>err. join ''.'' (loc err) @ '': '' @ msg err) errs)
                   | _ \<Rightarrow> ''Validation error. Please check your input.'')
              | None \<Rightarrow> ''Validation error. Please check your input.'')
           else if status = 500 then ''Internal server error. Please try again later.''
           else if status = 502 \<or> status = 503 \<or> status = 504 then
             ''Service temporarily unavailable. Please try again later.''
           else detailOrMessage data ''An unexpected error occurred'')
      | NoResponse code \<Rightarrow>
          (if code = Some ''ECONNABORTED''
           then ''Request timeout. Please check your connection and try again.''
           else ''Unable to connect to the server. Please check your internet connection.'')
      | SetupFailure \<Rightarrow> ''An unexpected error occurred'')"

text \<open>
  What a \<^verbatim>\<open>catch\<close> clause receives: an instance of \<^verbatim>\<open>Error\<close> with its
  \<^verbatim>\<open>message\<close>, or any other value.
\<close>

datatype Thrown = ErrorObject string | OtherValue

text \<open>A failing \<^verbatim>\<open>postChat\<close> rejects with \<^verbatim>\<open>new ApiError(errorMessage, ...)\<close>.\<close>

definition postChat_rejection :: "AxiosFailure \<Rightarrow> Thrown" where
  "postChat_rejection failure = ErrorObject (errorMessage failure)"

text \<open>
  How the awaited \<^verbatim>\<open>postChat\<close> settles: with a response, together with the reading
  of \<^verbatim>\<open>Date.now()\<close> taken right after it (\<^verbatim>\<open>endTime\<close>), or with a thrown value.
\<close>

datatype 'u Outcome = Resolved "'u ChatResponse" int | Rejected Thrown

section \<open>The controller (\<^verbatim>\<open>ChatContainer\<close>) and the input (\<^verbatim>\<open>MessageInput\<close>)\<close>

text \<open>
  The readings \<^verbatim>\<open>handleSendMessage\<close> takes from the environment before it awaits:
  the id and the time of the user message, those of the placeholder, and \<^verbatim>\<open>startTime\<close>.
\<close>

record Readings =
  uuid_user :: string
  now_user :: int
  uuid_agent :: string
  now_agent :: int
  now_start :: int

text \<open>
  What the suspended \<^verbatim>\<open>handleSendMessage\<close> holds across the \<^verbatim>\<open>await\<close>: the id of
  its placeholder, the \<^verbatim>\<open>sessionId\<close> of its closure, \<^verbatim>\<open>startTime\<close>, and the request
  it has issued.
\<close>

record Exchange =
  agentMessageId :: string
  closure_sessionId :: string
  startTime :: int
  request :: ChatRequest

text \<open>
  \<^verbatim>\<open>handleSendMessage\<close> up to the \<^verbatim>\<open>await\<close>. The \<^verbatim>\<open>sessionId\<close> and
  \<^verbatim>\<open>userPreferences\<close> of the closure are those of the store when the handler is called.
\<close>

definition handleSendMessage_begin ::
  "string \<Rightarrow> Readings \<Rightarrow> 'u ChatState \<Rightarrow> 'u ChatState \<times> Exchange" where
  "handleSendMessage_begin text r state =
     (let userMessage =
            \<lparr> in_id = None, in_role = User, in_content = text, in_toolsUsed = None,
              in_processingTime = None, in_isStreaming = None, in_error = None \<rparr>;
          state1 = snd (addMessage userMessage (uuid_user r) (now_user r) state);
          agentMessage =
            \<lparr> in_id = None, in_role = Agent, in_content = [], in_toolsUsed = None,
              in_processingTime = None, in_isStreaming = Some True, in_error = None \<rparr>;
          created = addMessage agentMessage (uuid_agent r) (now_agent r) state1;
          agentId = id_msg (fst created);
          state2 = setLoading True (setStreamingMessageId (Some agentId) (snd created));
          req =
            \<lparr> req_message = text,
              req_session_id = Some (sessionId state),
              req_user_id =
                (case userId (userPreferences state) of
                   Some u \<Rightarrow> (if u \<noteq> [] then u else ''default_user'')
                 | None \<Rightarrow> ''default_user''),
              req_enable_profiling =
                (case enableProfiling (userPreferences state) of Some b \<Rightarrow> b | None \<Rightarrow> False) \<rparr>
      in (state2,
          \<lparr> agentMessageId = agentId, closure_sessionId = sessionId state,
            startTime = now_start r, request = req \<rparr>))"

text \<open>The updates of the \<^verbatim>\<open>try\<close> branch and of the \<^verbatim>\<open>catch\<close> branch.\<close>

definition successUpdates :: "Exchange \<Rightarrow> 'u ChatResponse \<Rightarrow> int \<Rightarrow> 'u MessageUpdates" where
  "successUpdates ex resp endTime =
     \<lparr> upd_id = None, upd_role = None,
       upd_content = Some (response resp),
       upd_timestamp = None,
       upd_toolsUsed = Some (Some (tools_used resp)),
       upd_processingTime =
         Some (Some (if processing_time resp \<noteq> 0 then processing_time resp
                     else of_int (endTime - startTime ex))),
       upd_isStreaming = Some (Some False),
       upd_error = None \<rparr>"

definition failureUpdates :: "Thrown \<Rightarrow> 'u MessageUpdates" where
  "failureUpdates thrown =
     \<lparr> upd_id = None, upd_role = None, upd_content = None, upd_timestamp = None,
       upd_toolsUsed = None, upd_processingTime = None,
       upd_isStreaming = Some (Some False),
       upd_error =
         Some (Some (case thrown of ErrorObject m \<Rightarrow> m | OtherValue \<Rightarrow> ''An error occurred'')) \<rparr>"

text \<open>\<^verbatim>\<open>handleSendMessage\<close> from the \<^verbatim>\<open>await\<close> on: \<^verbatim>\<open>try\<close>, \<^verbatim>\<open>catch\<close>, \<^verbatim>\<open>finally\<close>.\<close>

definition handleSendMessage_settle ::
  "Exchange \<Rightarrow> 'u Outcome \<Rightarrow> 'u ChatState \<Rightarrow> 'u ChatState" where
  "handleSendMessage_settle ex outcome state =
     (let state1 =
            (case outcome of
               Resolved resp endTime \<Rightarrow>
                 (let patched = updateMessage (agentMessageId ex) (successUpdates ex resp endTime) state
                  in if session_id resp \<noteq> closure_sessionId ex
                     then setSessionId (session_id resp) patched else patched)
             | Rejected thrown \<Rightarrow>
                 updateMessage (agentMessageId ex) (failureUpdates thrown) state)
      in setLoading False (setStreamingMessageId None state1))"

text \<open>One exchange with nothing happening during the \<^verbatim>\<open>await\<close>.\<close>

definition handleSendMessage ::
  "string \<Rightarrow> Readings \<Rightarrow> 'u Outcome \<Rightarrow> 'u ChatState \<Rightarrow> 'u ChatState" where
  "handleSendMessage text r outcome state =
     handleSendMessage_settle (snd (handleSendMessage_begin text r state)) outcome
       (fst (handleSendMessage_begin text r state))"

text \<open>
  \<^verbatim>\<open>String.prototype.trim\<close>, on the white space and line terminators that fit in one
  character of this model: tab, line feed, vertical tab, form feed, carriage return,
  space and no-break space.
\<close>

definition is_space :: "char \<Rightarrow> bool" where
  "is_space c = (of_char c \<in> {9, 10, 11, 12, 13, 32, 160 :: nat})"

definition trim :: "string \<Rightarrow> string" where
  "trim s = rev (dropWhile is_space (rev (dropWhile is_space s)))"

text \<open>
  The running application: the store, and the exchanges that are suspended at their
  \<^verbatim>\<open>await\<close>, each with the request it has issued, oldest first.
\<close>

record 'u App =
  store :: "'u ChatState"
  inflight :: "Exchange list"

text \<open>
  \<^verbatim>\<open>handleSend\<close> of \<^verbatim>\<open>MessageInput\<close>, with \<^verbatim>\<open>onSendMessage\<close> bound to
  \<^verbatim>\<open>handleSendMessage\<close> as \<^verbatim>\<open>ChatContainer\<close> binds it: \<open>message\<close> is the text typed
  and \<open>disabled\<close> the property of that name. The component's own state (the text area,
  the attached files) is not part of the model.
\<close>

definition handleSend :: "string \<Rightarrow> bool \<Rightarrow> Readings \<Rightarrow> 'u App \<Rightarrow> 'u App" where
  "handleSend message disabled r app =
     (if trim message \<noteq> [] \<and> \<not> disabled
      then \<lparr> store = fst (handleSendMessage_begin (trim message) r (store app)),
             inflight = inflight app @ [snd (handleSendMessage_begin (trim message) r (store app))] \<rparr>
      else app)"

text \<open>The greeting of the mount effect of \<^verbatim>\<open>ChatContainer\<close>.\<close>

definition greeting :: string where
  "greeting = ''Hello! I'' @ [CHR 0x27] @ ''m the Vantage AI assistant. How can I help you today?''"

text \<open>
  What can happen to the running application, one event at a time (execution is
  single-threaded):
  \<^item> \<open>Send\<close>: the user submits the text typed; \<^verbatim>\<open>ChatContainer\<close> passes
    \<^verbatim>\<open>disabled={isLoading}\<close>;
  \<^item> \<open>Settle k\<close>: the request of the \<open>k\<close>-th suspended exchange settles and that
    \<^verbatim>\<open>handleSendMessage\<close> runs to its end;
  \<^item> \<open>Reset\<close>: the reset button, bound to \<^verbatim>\<open>resetSession\<close> and never disabled;
  \<^item> \<open>Mount\<close>: the mount effect, which greets when there are no messages;
  \<^item> \<open>Clear\<close>, \<open>SetSession\<close>, \<open>Preferences\<close>: the store operations
    \<^verbatim>\<open>clearMessages\<close>, \<^verbatim>\<open>setSessionId\<close> and \<^verbatim>\<open>updateUserPreferences\<close>.
  The operations \<^verbatim>\<open>addMessage\<close>, \<^verbatim>\<open>updateMessage\<close>, \<^verbatim>\<open>setStreamingMessageId\<close> and
  \<^verbatim>\<open>setLoading\<close> are called from \<^verbatim>\<open>handleSendMessage\<close> and the mount effect only.
\<close>

datatype 'u Event =
  Send string Readings
| Settle nat "'u Outcome"
| Reset string
| Mount string int
| Clear
| SetSession string
| Preferences PreferencesUpdates

fun step :: "'u Event \<Rightarrow> 'u App \<Rightarrow> 'u App" where
  "step (Send message r) app = handleSend message (isLoading (store app)) r app"
| "step (Settle k outcome) app =
     (if k < length (inflight app)
      then \<lparr> store = handleSendMessage_settle (inflight app ! k) outcome (store app),
             inflight = take k (inflight app) @ drop (Suc k) (inflight app) \<rparr>
      else app)"
| "step (Reset uuid) app = app\<lparr>store := resetSession uuid (store app)\<rparr>"
| "step (Mount uuid now) app =
     (if messages (store app) = []
      then app\<lparr>store :=
             snd (addMessage
                    \<lparr> in_id = None, in_role = Agent, in_content = greeting, in_toolsUsed = None,
                      in_processingTime = None, in_isStreaming = None, in_error = None \<rparr>
                    uuid now (store app))\<rparr>
      else app)"
| "step Clear app = app\<lparr>store := clearMessages (store app)\<rparr>"
| "step (SetSession sid) app = app\<lparr>store := setSessionId sid (store app)\<rparr>"
| "step (Preferences p) app = app\<lparr>store := updateUserPreferences p (store app)\<rparr>"

fun run :: "'u Event list \<Rightarrow> 'u App \<Rightarrow> 'u App" where
  "run [] app = app"
| "run (e # es) app = run es (step e app)"

section \<open>Message states and invariants\<close>

text \<open>
  The three states of a message: streaming (\<^verbatim>\<open>isStreaming\<close> true, no error), completed
  (not streaming, no error) and failed (not streaming, \<^verbatim>\<open>error\<close> set). A message with
  \<^verbatim>\<open>isStreaming\<close> true and an error is in none of them.
\<close>

datatype MessageState = Streaming | Completed | Failed

definition messageState :: "'u Message \<Rightarrow> MessageState option" where
  "messageState m =
     (if isStreaming m = Some True then (if error m = None then Some Streaming else None)
      else if error m = None then Some Completed else Some Failed)"

definition streaming :: "'u Message \<Rightarrow> bool" where
  "streaming m = (isStreaming m = Some True)"

text \<open>
  At most one message is streaming, and \<^verbatim>\<open>streamingMessageId\<close>, when set, is the id
  of the streaming message.
\<close>

definition single_streaming :: "'u ChatState \<Rightarrow> bool" where
  "single_streaming state =
     (length (filter streaming (messages state)) \<le> 1 \<and>
      (case streamingMessageId state of
         None \<Rightarrow> True
       | Some i \<Rightarrow> map id_msg (filter streaming (messages state)) = [i]))"

text \<open>
  The store and the suspended exchanges agree: either nothing is in flight, the store
  is idle and no message is streaming, or one exchange is in flight, the store is
  loading and the one streaming message is the placeholder of that exchange.
\<close>

definition coherent :: "'u App \<Rightarrow> bool" where
  "coherent app =
     (case inflight app of
        [] \<Rightarrow>
          \<not> isLoading (store app) \<and> streamingMessageId (store app) = None \<and>
          filter streaming (messages (store app)) = []
      | [ex] \<Rightarrow>
          isLoading (store app) \<and> streamingMessageId (store app) = Some (agentMessageId ex) \<and>
          map id_msg (filter streaming (messages (store app))) = [agentMessageId ex]
      | _ \<Rightarrow> False)"

text \<open>An event that empties the message list happens only while the store is not loading.\<close>

fun calm :: "'u Event \<Rightarrow> 'u App \<Rightarrow> bool" where
  "calm (Reset uuid) app = (\<not> isLoading (store app))"
| "calm Clear app = (\<not> isLoading (store app))"
| "calm e app = True"

fun calm_run :: "'u Event list \<Rightarrow> 'u App \<Rightarrow> bool" where
  "calm_run [] app = True"
| "calm_run (e # es) app = (calm e app \<and> calm_run es (step e app))"

text \<open>
  The contract of \<^verbatim>\<open>uuidv4\<close>: an id it returns is not one that is in use, here as
  the id of a message or of the placeholder of a suspended exchange.
\<close>

definition used :: "'u App \<Rightarrow> string set" where
  "used app = id_msg ` set (messages (store app)) \<union> agentMessageId ` set (inflight app)"

fun fresh :: "'u Event \<Rightarrow> 'u App \<Rightarrow> bool" where
  "fresh (Send message r) app =
     (uuid_user r \<notin> used app \<and> uuid_agent r \<notin> used app \<and> uuid_user r \<noteq> uuid_agent r)"
| "fresh (Mount uuid now) app = (uuid \<notin> used app)"
| "fresh e app = True"

fun fresh_run :: "'u Event list \<Rightarrow> 'u App \<Rightarrow> bool" where
  "fresh_run [] app = True"
| "fresh_run (e # es) app = (fresh e app \<and> fresh_run es (step e app))"

text \<open>
  Every suspended exchange has a placeholder id of its own, and the messages carrying
  that id are streaming.
\<close>

definition awaiting :: "'u App \<Rightarrow> bool" where
  "awaiting app =
     (distinct (map agentMessageId (inflight app)) \<and>
      (\<forall>ex \<in> set (inflight app). \<forall>m \<in> set (messages (store app)).
         id_msg m = agentMessageId ex \<longrightarrow> messageState m = Some Streaming))"

section \<open>Scenarios\<close>

definition readings1 :: Readings where
  "readings1 =
     \<lparr> uuid_user = ''u1'', now_user = 100, uuid_agent = ''a1'', now_agent = 101, now_start = 102 \<rparr>"

definition readings2 :: Readings where
  "readings2 =
     \<lparr> uuid_user = ''u2'', now_user = 200, uuid_agent = ''a2'', now_agent = 201, now_start = 202 \<rparr>"

definition readings3 :: Readings where
  "readings3 =
     \<lparr> uuid_user = ''u3'', now_user = 300, uuid_agent = ''a3'', now_agent = 301, now_start = 302 \<rparr>"

text \<open>The response of Scenario C, and one that reports no processing time.\<close>

definition hiThere :: "string ChatResponse" where
  "hiThere =
     \<lparr> response = ''Hi there'', session_id = ''s2'', processing_time = 120, tools_used = [] \<rparr>"

definition untimed :: "string ChatResponse" where
  "untimed =
     \<lparr> response = ''Hi there'', session_id = ''s2'', processing_time = 0, tools_used = [] \<rparr>"

text \<open>The application right after the store is created with session id \<open>s1\<close>.\<close>

definition startState :: "string ChatState" where
  "startState = initialState ''s1''"

definition startApp :: "string App" where
  "startApp = \<lparr> store = startState, inflight = [] \<rparr>"

text \<open>The placeholder of Scenario B and the update applied to it.\<close>

definition placeholderX :: "string MessageInput" where
  "placeholderX =
     \<lparr> in_id = Some ''x'', in_role = Agent, in_content = [], in_toolsUsed = None,
       in_processingTime = None, in_isStreaming = Some True, in_error = None \<rparr>"

definition helloUpdates :: "string MessageUpdates" where
  "helloUpdates =
     \<lparr> upd_id = None, upd_role = None, upd_content = Some ''hello'', upd_timestamp = None,
       upd_toolsUsed = None, upd_processingTime = None, upd_isStreaming = Some (Some False),
       upd_error = None \<rparr>"

definition hi :: "string MessageInput" where
  "hi =
     \<lparr> in_id = None, in_role = User, in_content = ''Hi'', in_toolsUsed = None,
       in_processingTime = None, in_isStreaming = None, in_error = None \<rparr>"

text \<open>Two calls of \<open>addMessage\<close>, and two calls that give the same id.\<close>

definition twoCalls :: "(string MessageInput \<times> string \<times> int) list" where
  "twoCalls = [(hi, ''g1'', 10), (placeholderX, ''g2'', 11)]"

definition sameIdCalls :: "(string MessageInput \<times> string \<times> int) list" where
  "sameIdCalls = [(placeholderX, ''g1'', 10), (placeholderX, ''g2'', 11)]"

text \<open>
  Three calls that leave two messages with the id \<open>x\<close> and one with another id
  between them.
\<close>

definition threeCalls :: "(string MessageInput \<times> string \<times> int) list" where
  "threeCalls = [(placeholderX, ''g1'', 10), (hi, ''g2'', 11), (placeholderX, ''g3'', 12)]"

text \<open>Two direct calls of \<open>addMessage\<close>, each with a streaming message and no id.\<close>

definition twoPlaceholders :: "(string MessageInput \<times> string \<times> int) list" where
  "twoPlaceholders =
     [(\<lparr> in_id = None, in_role = Agent, in_content = [], in_toolsUsed = None,
         in_processingTime = None, in_isStreaming = Some True, in_error = None \<rparr>, ''g1'', 10),
      (\<lparr> in_id = None, in_role = Agent, in_content = [], in_toolsUsed = None,
         in_processingTime = None, in_isStreaming = Some True, in_error = None \<rparr>, ''g2'', 11)]"

text \<open>
  A run in which every exchange settles before the session is reset, ending with an
  exchange in flight, and a run in which the session is reset during an exchange.
\<close>

definition orderlyTrace :: "string Event list" where
  "orderlyTrace =
     [Mount ''g'' 5, Send ''Hello'' readings1, Settle 0 (Resolved hiThere 352), Reset ''s3'',
      Send ''again'' readings2]"

definition raceTrace :: "string Event list" where
  "raceTrace =
     [Send ''Hello'' readings1, Reset ''s3'', Send ''again'' readings2,
      Settle 0 (Resolved hiThere 352), Send ''third'' readings3]"

text \<open>A run after which the first exchange is completed and a second one is in flight.\<close>

definition secondTrace :: "string Event list" where
  "secondTrace =
     [Send ''Hello'' readings1, Settle 0 (Resolved hiThere 352), Send ''again'' readings2]"

text \<open>A validation failure of the backend that lists no error.\<close>

definition emptyValidation :: AxiosFailure where
  "emptyValidation = HttpResponse 422 (Some \<lparr> detail = Some (DetailList []), body_message = None \<rparr>)"

section \<open>Properties of \<open>updateMessage\<close>\<close>

lemma updateMessage_frame:
  "sessionId (updateMessage i u s) = sessionId s"
  "userPreferences (updateMessage i u s) = userPreferences s"
  "isLoading (updateMessage i u s) = isLoading s"
  "streamingMessageId (updateMessage i u s) = streamingMessageId s"
  by (simp_all add: updateMessage_def)

lemma updateMessage_messages:
  "messages (updateMessage i u s) =
     map (\<lambda>msg. if id_msg msg = i then spread_message msg u else msg) (messages s)"
  by (simp add: updateMessage_def)

text \<open>
  Claim C7. When no message of the list has the given id, \<open>updateMessage\<close> returns the
  state it was given: the message list is the same list (no entry added, none modified),
  and so is every other field. The operation is a total function, it has no failing branch.
\<close>

theorem updateMessage_unknown_id:
  assumes "i \<notin> id_msg ` set (messages s)"
  shows "updateMessage i u s = s"
proof -
  have "map (\<lambda>msg. if id_msg msg = i then spread_message msg u else msg) (messages s) = messages s"
    using assms by (intro map_idI) auto
  then show ?thesis by (simp add: updateMessage_def)
qed

theorem updateMessage_unknown_id_witness:
  "''y'' \<notin> id_msg ` set (messages (snd (addMessage placeholderX ''g'' 7 startState))) \<and>
   updateMessage ''y'' helloUpdates (snd (addMessage placeholderX ''g'' 7 startState)) =
     snd (addMessage placeholderX ''g'' 7 startState)"
proof -
  have absent:
    "''y'' \<notin> id_msg ` set (messages (snd (addMessage placeholderX ''g'' 7 startState)))"
    by (simp add: addMessage_def newMessage_def placeholderX_def startState_def initialState_def)
  from updateMessage_unknown_id [OF absent] absent show ?thesis by simp
qed

text \<open>
  Claim C10. \<open>updateMessage\<close> keeps the length of the message list and changes it
  position by position: a message whose id is not the given one stays as it is, and in
  every message whose id is the given one, however many there are, each field gets the
  value the updates carry for it when they carry one, and keeps its value otherwise.
\<close>

theorem updateMessage_pointwise:
  "length (messages (updateMessage i u s)) = length (messages s) \<and>
   (\<forall>k < length (messages s).
      (id_msg (messages s ! k) \<noteq> i \<longrightarrow> messages (updateMessage i u s) ! k = messages s ! k) \<and>
      (id_msg (messages s ! k) = i \<longrightarrow>
         id_msg (messages (updateMessage i u s) ! k) =
           (case upd_id u of None \<Rightarrow> id_msg (messages s ! k) | Some v \<Rightarrow> v) \<and>
         role (messages (updateMessage i u s) ! k) =
           (case upd_role u of None \<Rightarrow> role (messages s ! k) | Some v \<Rightarrow> v) \<and>
         content (messages (updateMessage i u s) ! k) =
           (case upd_content u of None \<Rightarrow> content (messages s ! k) | Some v \<Rightarrow> v) \<and>
         timestamp (messages (updateMessage i u s) ! k) =
           (case upd_timestamp u of None \<Rightarrow> timestamp (messages s ! k) | Some v \<Rightarrow> v) \<and>
         toolsUsed (messages (updateMessage i u s) ! k) =
           (case upd_toolsUsed u of None \<Rightarrow> toolsUsed (messages s ! k) | Some v \<Rightarrow> v) \<and>
         processingTime (messages (updateMessage i u s) ! k) =
           (case upd_processingTime u of
              None \<Rightarrow> processingTime (messages s ! k) | Some v \<Rightarrow> v) \<and>
         isStreaming (messages (updateMessage i u s) ! k) =
           (case upd_isStreaming u of None \<Rightarrow> isStreaming (messages s ! k) | Some v \<Rightarrow> v) \<and>
         error (messages (updateMessage i u s) ! k) =
           (case upd_error u of None \<Rightarrow> error (messages s ! k) | Some v \<Rightarrow> v)))"
  by (simp add: updateMessage_messages spread_message_def split: option.split)

text \<open>
  Three messages, the first and the third with the id \<open>x\<close>: both get the new content
  and stop streaming and keep their own timestamps, the second stays as it is.
\<close>

theorem updateMessage_pointwise_witness:
  "length (messages (addMessages threeCalls startState)) = 3 \<and>
   id_msg (messages (addMessages threeCalls startState) ! 0) = ''x'' \<and>
   id_msg (messages (addMessages threeCalls startState) ! 1) \<noteq> ''x'' \<and>
   id_msg (messages (addMessages threeCalls startState) ! 2) = ''x'' \<and>
   content (messages (addMessages threeCalls startState) ! 2) = [] \<and>
   isStreaming (messages (addMessages threeCalls startState) ! 2) = Some True \<and>
   length (messages (updateMessage ''x'' helloUpdates (addMessages threeCalls startState))) = 3 \<and>
   content (messages (updateMessage ''x'' helloUpdates (addMessages threeCalls startState)) ! 0) =
     ''hello'' \<and>
   isStreaming (messages (updateMessage ''x'' helloUpdates (addMessages threeCalls startState)) ! 0) =
     Some False \<and>
   timestamp (messages (updateMessage ''x'' helloUpdates (addMessages threeCalls startState)) ! 0) =
     10 \<and>
   messages (updateMessage ''x'' helloUpdates (addMessages threeCalls startState)) ! 1 =
     \<lparr> id_msg = ''g2'', role = User, content = ''Hi'', timestamp = 11, toolsUsed = None,
       processingTime = None, isStreaming = None, error = None \<rparr> \<and>
   id_msg (messages (updateMessage ''x'' helloUpdates (addMessages threeCalls startState)) ! 2) =
     ''x'' \<and>
   role (messages (updateMessage ''x'' helloUpdates (addMessages threeCalls startState)) ! 2) =
     Agent \<and>
   content (messages (updateMessage ''x'' helloUpdates (addMessages threeCalls startState)) ! 2) =
     ''hello'' \<and>
   isStreaming (messages (updateMessage ''x'' helloUpdates (addMessages threeCalls startState)) ! 2) =
     Some False \<and>
   timestamp (messages (updateMessage ''x'' helloUpdates (addMessages threeCalls startState)) ! 2) =
     12 \<and>
   error (messages (updateMessage ''x'' helloUpdates (addMessages threeCalls startState)) ! 2) =
     None"
proof -
  let ?s = "addMessages threeCalls startState"
  let ?s' = "updateMessage ''x'' helloUpdates ?s"
  have old:
    "messages ?s =
       [\<lparr> id_msg = ''x'', role = Agent, content = [], timestamp = 10, toolsUsed = None,
          processingTime = None, isStreaming = Some True, error = None \<rparr>,
        \<lparr> id_msg = ''g2'', role = User, content = ''Hi'', timestamp = 11, toolsUsed = None,
          processingTime = None, isStreaming = None, error = None \<rparr>,
        \<lparr> id_msg = ''x'', role = Agent, content = [], timestamp = 12, toolsUsed = None,
          processingTime = None, isStreaming = Some True, error = None \<rparr>]"
    by (simp add: threeCalls_def placeholderX_def hi_def addMessage_def newMessage_def
        startState_def initialState_def)
  have len: "length (messages ?s) = 3" by (simp add: old)
  have k0: "(0::nat) < length (messages ?s)" and k1: "(1::nat) < length (messages ?s)"
    and k2: "(2::nat) < length (messages ?s)"
    by (simp_all add: old)
  have i0: "id_msg (messages ?s ! 0) = ''x''" and i1: "id_msg (messages ?s ! 1) \<noteq> ''x''"
    and i2: "id_msg (messages ?s ! 2) = ''x''"
    by (simp_all add: old)
  have c2: "content (messages ?s ! 2) = []" and s2: "isStreaming (messages ?s ! 2) = Some True"
    by (simp_all add: old)
  note pointwise = updateMessage_pointwise [of "''x''" helloUpdates ?s]
  from pointwise len have len': "length (messages ?s') = 3" by simp
  from pointwise k0 i0 have at0:
    "content (messages ?s' ! 0) =
       (case upd_content helloUpdates of None \<Rightarrow> content (messages ?s ! 0) | Some v \<Rightarrow> v)"
    "isStreaming (messages ?s' ! 0) =
       (case upd_isStreaming helloUpdates of None \<Rightarrow> isStreaming (messages ?s ! 0) | Some v \<Rightarrow> v)"
    "timestamp (messages ?s' ! 0) =
       (case upd_timestamp helloUpdates of None \<Rightarrow> timestamp (messages ?s ! 0) | Some v \<Rightarrow> v)"
    by blast+
  from pointwise k1 i1 have at1: "messages ?s' ! 1 = messages ?s ! 1"
    by blast
  from pointwise k2 i2 have at2:
    "id_msg (messages ?s' ! 2) =
       (case upd_id helloUpdates of None \<Rightarrow> id_msg (messages ?s ! 2) | Some v \<Rightarrow> v)"
    "role (messages ?s' ! 2) =
       (case upd_role helloUpdates of None \<Rightarrow> role (messages ?s ! 2) | Some v \<Rightarrow> v)"
    "content (messages ?s' ! 2) =
       (case upd_content helloUpdates of None \<Rightarrow> content (messages ?s ! 2) | Some v \<Rightarrow> v)"
    "isStreaming (messages ?s' ! 2) =
       (case upd_isStreaming helloUpdates of None \<Rightarrow> isStreaming (messages ?s ! 2) | Some v \<Rightarrow> v)"
    "timestamp (messages ?s' ! 2) =
       (case upd_timestamp helloUpdates of None \<Rightarrow> timestamp (messages ?s ! 2) | Some v \<Rightarrow> v)"
    "error (messages ?s' ! 2) =
       (case upd_error helloUpdates of None \<Rightarrow> error (messages ?s ! 2) | Some v \<Rightarrow> v)"
    by blast+
  have new0: "content (messages ?s' ! 0) = ''hello''"
    "isStreaming (messages ?s' ! 0) = Some False" "timestamp (messages ?s' ! 0) = 10"
    unfolding at0 by (simp_all add: helloUpdates_def old)
  have new1: "messages ?s' ! 1 =
      \<lparr> id_msg = ''g2'', role = User, content = ''Hi'', timestamp = 11, toolsUsed = None,
        processingTime = None, isStreaming = None, error = None \<rparr>"
    unfolding at1 by (simp add: old)
  have new2: "id_msg (messages ?s' ! 2) = ''x''" "role (messages ?s' ! 2) = Agent"
    "content (messages ?s' ! 2) = ''hello''" "isStreaming (messages ?s' ! 2) = Some False"
    "timestamp (messages ?s' ! 2) = 12" "error (messages ?s' ! 2) = None"
    unfolding at2 by (simp_all add: helloUpdates_def old)
  from len i0 i1 i2 c2 s2 len' new0 new1 new2 show ?thesis by blast
qed

section \<open>Persistence\<close>

text \<open>
  Claim C5. Restoring what \<open>partialize\<close> selected gives back the messages, the session
  id and the preferences of the state that was persisted, whereas \<open>isLoading\<close> and
  \<open>streamingMessageId\<close> are no fields of the snapshot and are \<open>False\<close> and \<open>None\<close>
  after the restore, whatever they were before and whatever session id the new store
  generated for itself.
\<close>

theorem persist_restore_roundtrip:
  "messages (restore (Some (partialize state)) uuid) = messages state \<and>
   sessionId (restore (Some (partialize state)) uuid) = sessionId state \<and>
   userPreferences (restore (Some (partialize state)) uuid) = userPreferences state \<and>
   isLoading (restore (Some (partialize state)) uuid) = False \<and>
   streamingMessageId (restore (Some (partialize state)) uuid) = None \<and>
   partialize (state\<lparr>isLoading := l, streamingMessageId := i\<rparr>) = partialize state"
  by (simp add: restore_def partialize_def initialState_def)

section \<open>Resetting the session\<close>

lemma longest_ge: "x \<in> set xs \<Longrightarrow> length x \<le> longest xs"
  by (induction xs) auto

lemma uuidv4_fresh: "uuidv4 taken \<notin> set taken"
proof
  assume "uuidv4 taken \<in> set taken"
  then have "length (uuidv4 taken) \<le> longest taken" by (rule longest_ge)
  then show False by (simp add: uuidv4_def)
qed

lemma generated_differs: "x \<in> set taken \<Longrightarrow> generateSessionId taken \<noteq> x"
  using uuidv4_fresh [of taken] by (auto simp: generateSessionId_def)

text \<open>
  Claim C6. Whatever the prior state and whatever was generated before, \<open>resetSession\<close>
  empties the message list, stores a generated session id that differs from the prior
  one, and sets \<open>isLoading\<close> to \<open>False\<close> and \<open>streamingMessageId\<close> to \<open>None\<close>; and
  the session id of a second reset differs from that of the first, and from the prior
  one as well.
\<close>

theorem resetSession_new_session:
  "messages (fst (resetSession_generating taken state)) = [] \<and>
   sessionId (fst (resetSession_generating taken state)) \<noteq> sessionId state \<and>
   isLoading (fst (resetSession_generating taken state)) = False \<and>
   streamingMessageId (fst (resetSession_generating taken state)) = None \<and>
   sessionId (fst (resetSession_generating (snd (resetSession_generating taken state))
                     (fst (resetSession_generating taken state)))) \<noteq>
     sessionId (fst (resetSession_generating taken state)) \<and>
   sessionId (fst (resetSession_generating (snd (resetSession_generating taken state))
                     (fst (resetSession_generating taken state)))) \<noteq>
     sessionId state"
proof -
  let ?state1 = "fst (resetSession_generating taken state)"
  let ?taken1 = "snd (resetSession_generating taken state)"
  have first: "generateSessionId (inUse state @ taken) \<noteq> sessionId state"
    by (rule generated_differs) (simp add: inUse_def)
  have sid1: "sessionId ?state1 = generateSessionId (inUse state @ taken)"
    by (simp add: resetSession_generating_def resetSession_def)
  have second: "generateSessionId (inUse ?state1 @ ?taken1) \<noteq> sessionId ?state1"
    by (rule generated_differs) (simp add: inUse_def)
  have third: "generateSessionId (inUse ?state1 @ ?taken1) \<noteq> sessionId state"
    by (rule generated_differs) (simp add: inUse_def resetSession_generating_def)
  have sid2: "sessionId (fst (resetSession_generating ?taken1 ?state1)) =
      generateSessionId (inUse ?state1 @ ?taken1)"
    by (simp add: resetSession_generating_def [of ?taken1] resetSession_def)
  from first second third sid1 sid2 show ?thesis
    by (simp add: resetSession_generating_def [of taken state] resetSession_def)
qed

text \<open>
  Scenario E, from a store that is loading with an exchange in flight: the session ids
  are \<open>s1\<close>, then \<open>000\<close>, then \<open>0000\<close>.
\<close>

theorem resetSession_new_session_witness:
  "sessionId (fst (handleSendMessage_begin ''Hello'' readings1 startState)) = ''s1'' \<and>
   isLoading (fst (handleSendMessage_begin ''Hello'' readings1 startState)) \<and>
   fst (resetSession_generating []
          (fst (handleSendMessage_begin ''Hello'' readings1 startState))) =
     initialState ''000'' \<and>
   sessionId
     (fst (resetSession_generating
             (snd (resetSession_generating []
                     (fst (handleSendMessage_begin ''Hello'' readings1 startState))))
             (fst (resetSession_generating []
                     (fst (handleSendMessage_begin ''Hello'' readings1 startState)))))) =
     ''0000''"
proof -
  let ?state = "fst (handleSendMessage_begin ''Hello'' readings1 startState)"
  have busy: "sessionId ?state = ''s1''" "isLoading ?state"
    by (simp_all add: handleSendMessage_begin_def addMessage_def newMessage_def
        setLoading_def setStreamingMessageId_def Let_def startState_def initialState_def)
  have ids: "inUse ?state = [''s1'', ''u1'', ''a1'']"
    by (simp add: inUse_def handleSendMessage_begin_def addMessage_def newMessage_def
        setLoading_def setStreamingMessageId_def Let_def busy readings1_def startState_def
        initialState_def)
  have sid1: "sessionId (fst (resetSession_generating [] ?state)) = ''000''"
    by (simp add: resetSession_generating_def resetSession_def generateSessionId_def
        uuidv4_def ids)
  have taken1: "snd (resetSession_generating [] ?state) = [''000'', ''s1'', ''u1'', ''a1'']"
    by (simp add: resetSession_generating_def generateSessionId_def uuidv4_def ids)
  note twice = resetSession_new_session [of "[]" ?state]
  from twice have cleared: "messages (fst (resetSession_generating [] ?state)) = []"
    and idle: "isLoading (fst (resetSession_generating [] ?state)) = False"
    and unset: "streamingMessageId (fst (resetSession_generating [] ?state)) = None"
    by blast+
  have prefs: "userPreferences (fst (resetSession_generating [] ?state)) =
      \<lparr> theme = Some System, enableProfiling = Some False, userId = Some ''default_user'' \<rparr>"
    by (simp add: resetSession_generating_def resetSession_def handleSendMessage_begin_def addMessage_def newMessage_def
        setLoading_def setStreamingMessageId_def Let_def
        startState_def initialState_def)
  have first: "fst (resetSession_generating [] ?state) = initialState ''000''"
    by (rule ChatState.equality) (simp_all add: cleared idle unset sid1 prefs initialState_def)
  have second: "sessionId (fst (resetSession_generating (snd (resetSession_generating [] ?state))
      (fst (resetSession_generating [] ?state)))) = ''0000''"
    unfolding taken1 first
    by (simp add: resetSession_generating_def resetSession_def generateSessionId_def
        uuidv4_def inUse_def initialState_def)
  from busy first second show ?thesis by blast
qed

section \<open>Sending\<close>

lemma trim_blank: "trim ''  '' = []"
  by (simp add: trim_def is_space_def)

text \<open>
  Claim C8. When the text typed is empty after trimming, \<open>handleSend\<close> returns the
  application as it was: the store is unchanged (no user message, no placeholder, no
  message with an error) and no exchange, hence no request, is added to those in flight.
  The test is the one \<^verbatim>\<open>MessageInput\<close> makes before it calls \<^verbatim>\<open>onSendMessage\<close>;
  \<^verbatim>\<open>handleSendMessage\<close> itself makes none.
\<close>

theorem handleSend_blank:
  assumes "trim message = []"
  shows "handleSend message disabled r app = app"
  using assms by (simp add: handleSend_def)

theorem handleSend_blank_witness:
  "trim ''  '' = [] \<and> handleSend ''  '' False readings1 startApp = startApp"
  using handleSend_blank [OF trim_blank, of False readings1 startApp] trim_blank by simp

text \<open>
  \<^verbatim>\<open>handleSendMessage\<close> does not look at its text: called with the empty string it
  adds the two messages all the same.
\<close>

lemma handleSendMessage_begin_unguarded:
  "length (messages (fst (handleSendMessage_begin [] r state))) = length (messages state) + 2"
  by (simp add: handleSendMessage_begin_def addMessage_def setLoading_def
      setStreamingMessageId_def Let_def)

lemma begin_messages:
  "messages (fst (handleSendMessage_begin text r state)) =
     messages state @
       [\<lparr> id_msg = uuid_user r, role = User, content = text, timestamp = now_user r,
          toolsUsed = None, processingTime = None, isStreaming = None, error = None \<rparr>,
        \<lparr> id_msg = uuid_agent r, role = Agent, content = [], timestamp = now_agent r,
          toolsUsed = None, processingTime = None, isStreaming = Some True, error = None \<rparr>]"
  by (simp add: handleSendMessage_begin_def addMessage_def newMessage_def setLoading_def
      setStreamingMessageId_def Let_def)

lemma begin_frame:
  "sessionId (fst (handleSendMessage_begin text r state)) = sessionId state"
  "userPreferences (fst (handleSendMessage_begin text r state)) = userPreferences state"
  "isLoading (fst (handleSendMessage_begin text r state)) = True"
  "streamingMessageId (fst (handleSendMessage_begin text r state)) = Some (uuid_agent r)"
  by (simp_all add: handleSendMessage_begin_def addMessage_def newMessage_def setLoading_def
      setStreamingMessageId_def Let_def)

lemma begin_exchange:
  "agentMessageId (snd (handleSendMessage_begin text r state)) = uuid_agent r"
  "closure_sessionId (snd (handleSendMessage_begin text r state)) = sessionId state"
  "startTime (snd (handleSendMessage_begin text r state)) = now_start r"
  by (simp_all add: handleSendMessage_begin_def addMessage_def newMessage_def Let_def)

lemma settle_messages:
  "messages (handleSendMessage_settle ex (Resolved resp endTime) state) =
     map (\<lambda>msg. if id_msg msg = agentMessageId ex
                 then spread_message msg (successUpdates ex resp endTime) else msg)
       (messages state)"
  "messages (handleSendMessage_settle ex (Rejected thrown) state) =
     map (\<lambda>msg. if id_msg msg = agentMessageId ex
                 then spread_message msg (failureUpdates thrown) else msg)
       (messages state)"
  by (simp_all add: handleSendMessage_settle_def updateMessage_def setLoading_def
      setStreamingMessageId_def setSessionId_def Let_def)

lemma settle_flags:
  "isLoading (handleSendMessage_settle ex outcome state) = False"
  "streamingMessageId (handleSendMessage_settle ex outcome state) = None"
  "userPreferences (handleSendMessage_settle ex outcome state) = userPreferences state"
  by (simp_all add: handleSendMessage_settle_def updateMessage_def setLoading_def
      setStreamingMessageId_def setSessionId_def Let_def split: Outcome.split)

lemma settle_sessionId:
  "sessionId (handleSendMessage_settle ex (Resolved resp endTime) state) =
     (if session_id resp \<noteq> closure_sessionId ex then session_id resp else sessionId state)"
  "sessionId (handleSendMessage_settle ex (Rejected thrown) state) = sessionId state"
  by (simp_all add: handleSendMessage_settle_def updateMessage_def setLoading_def
      setStreamingMessageId_def setSessionId_def Let_def)

text \<open>
  One exchange with nothing happening during the \<^verbatim>\<open>await\<close>, answered: the list is
  two messages longer, its last message is the patched placeholder, the session id is
  the one the backend returned, and the store is idle.
\<close>

lemma handleSendMessage_resolved:
  "length (messages (handleSendMessage text r (Resolved resp endTime) state)) =
     length (messages state) + 2 \<and>
   last (messages (handleSendMessage text r (Resolved resp endTime) state)) =
     \<lparr> id_msg = uuid_agent r, role = Agent, content = response resp, timestamp = now_agent r,
       toolsUsed = Some (tools_used resp),
       processingTime =
         Some (if processing_time resp \<noteq> 0 then processing_time resp
               else of_int (endTime - now_start r)),
       isStreaming = Some False, error = None \<rparr> \<and>
   sessionId (handleSendMessage text r (Resolved resp endTime) state) = session_id resp \<and>
   isLoading (handleSendMessage text r (Resolved resp endTime) state) = False \<and>
   streamingMessageId (handleSendMessage text r (Resolved resp endTime) state) = None"
  by (simp add: handleSendMessage_def settle_messages settle_flags settle_sessionId
      begin_messages begin_frame begin_exchange successUpdates_def spread_message_def)

text \<open>
  Claim C2, as amended. An exchange is begun in the state \<open>begun\<close> with the readings
  \<open>r\<close>, and its request is answered when the store is in the state \<open>state\<close>. Then
  every message that carries the id of the placeholder gets the text of the response as
  content, is not streaming, gets the tools of the response and as processing time that
  of the response when it is not zero, else the time the client measured around the
  request; its other fields stay. If the session id of the response differs from the
  one that was sent, the session id of the store becomes that of the response, else it
  stays; and the store is idle.
\<close>

theorem exchange_resolved:
  assumes "k < length (messages state)"
    and "id_msg (messages state ! k) = uuid_agent r"
  shows
    "messages (handleSendMessage_settle (snd (handleSendMessage_begin text r begun))
                 (Resolved resp endTime) state) ! k =
       (messages state ! k)
         \<lparr> content := response resp,
           toolsUsed := Some (tools_used resp),
           processingTime :=
             Some (if processing_time resp \<noteq> 0 then processing_time resp
                   else of_int (endTime - now_start r)),
           isStreaming := Some False \<rparr> \<and>
     req_session_id (request (snd (handleSendMessage_begin text r begun))) =
       Some (sessionId begun) \<and>
     sessionId (handleSendMessage_settle (snd (handleSendMessage_begin text r begun))
                  (Resolved resp endTime) state) =
       (if session_id resp \<noteq> sessionId begun then session_id resp else sessionId state) \<and>
     isLoading (handleSendMessage_settle (snd (handleSendMessage_begin text r begun))
                  (Resolved resp endTime) state) = False \<and>
     streamingMessageId (handleSendMessage_settle (snd (handleSendMessage_begin text r begun))
                  (Resolved resp endTime) state) = None"
proof -
  have sent: "req_session_id (request (snd (handleSendMessage_begin text r begun))) =
      Some (sessionId begun)"
    by (simp add: handleSendMessage_begin_def Let_def)
  have patched:
    "messages (handleSendMessage_settle (snd (handleSendMessage_begin text r begun))
                 (Resolved resp endTime) state) ! k =
       spread_message (messages state ! k)
         (successUpdates (snd (handleSendMessage_begin text r begun)) resp endTime)"
    using assms by (simp add: settle_messages begin_exchange)
  have "spread_message (messages state ! k)
         (successUpdates (snd (handleSendMessage_begin text r begun)) resp endTime) =
       (messages state ! k)
         \<lparr> content := response resp,
           toolsUsed := Some (tools_used resp),
           processingTime :=
             Some (if processing_time resp \<noteq> 0 then processing_time resp
                   else of_int (endTime - now_start r)),
           isStreaming := Some False \<rparr>"
    by (simp add: spread_message_def successUpdates_def begin_exchange)
  with patched sent show ?thesis
    by (simp add: settle_flags settle_sessionId begin_exchange)
qed

text \<open>
  Scenario C: the response arrives right after the exchange was begun, the placeholder
  is the second message, and the session id goes from \<open>s1\<close> to \<open>s2\<close>.
\<close>

theorem exchange_resolved_witness:
  "(1::nat) < length (messages (fst (handleSendMessage_begin ''Hello'' readings1 startState))) \<and>
   id_msg (messages (fst (handleSendMessage_begin ''Hello'' readings1 startState)) ! 1) =
     uuid_agent readings1 \<and>
   sessionId startState = ''s1'' \<and>
   messages (handleSendMessage ''Hello'' readings1 (Resolved hiThere 352) startState) ! 1 =
     \<lparr> id_msg = ''a1'', role = Agent, content = ''Hi there'', timestamp = 101,
       toolsUsed = Some [], processingTime = Some 120, isStreaming = Some False,
       error = None \<rparr> \<and>
   sessionId (handleSendMessage ''Hello'' readings1 (Resolved hiThere 352) startState) = ''s2''"
proof -
  let ?busy = "fst (handleSendMessage_begin ''Hello'' readings1 startState)"
  have h1: "(1::nat) < length (messages ?busy)"
    by (simp add: begin_messages)
  have h2: "id_msg (messages ?busy ! 1) = uuid_agent readings1"
    by (simp add: begin_messages startState_def initialState_def)
  have s1: "sessionId startState = ''s1''"
    by (simp add: startState_def initialState_def)
  have placeholder: "messages ?busy ! Suc 0 =
      \<lparr> id_msg = ''a1'', role = Agent, content = [], timestamp = 101, toolsUsed = None,
        processingTime = None, isStreaming = Some True, error = None \<rparr>"
    by (simp add: begin_messages startState_def initialState_def readings1_def)
  from exchange_resolved [OF h1 h2, of "''Hello''" startState hiThere 352]
  have "messages (handleSendMessage ''Hello'' readings1 (Resolved hiThere 352) startState) ! 1 =
      \<lparr> id_msg = ''a1'', role = Agent, content = ''Hi there'', timestamp = 101,
        toolsUsed = Some [], processingTime = Some 120, isStreaming = Some False,
        error = None \<rparr>"
    and "sessionId (handleSendMessage ''Hello'' readings1 (Resolved hiThere 352) startState) = ''s2''"
    by (simp_all add: handleSendMessage_def placeholder hiThere_def s1)
  with h1 h2 s1 show ?thesis by blast
qed

text \<open>
  Claim C2 as stated fails: when the response reports the processing time 0, the
  placeholder gets the 250 ms that the client measured.
\<close>

theorem handleSendMessage_untimed_counterexample:
  "processingTime
     (last (messages (handleSendMessage ''Hello'' readings1 (Resolved untimed 352) startState)))
   \<noteq> Some (processing_time untimed)"
  by (simp add: handleSendMessage_def settle_messages begin_messages begin_exchange
      successUpdates_def spread_message_def readings1_def untimed_def)

text \<open>
  The failing branch of an exchange: the placeholder ends not streaming, with the
  message of the thrown error (or the fixed text, for a value that is no error) as
  \<open>error\<close> and with its content still empty, and the store is idle.
\<close>

lemma handleSendMessage_rejected:
  "last (messages (handleSendMessage text r (Rejected thrown) state)) =
     \<lparr> id_msg = uuid_agent r, role = Agent, content = [], timestamp = now_agent r,
       toolsUsed = None, processingTime = None, isStreaming = Some False,
       error = Some (case thrown of ErrorObject m \<Rightarrow> m | OtherValue \<Rightarrow> ''An error occurred'') \<rparr> \<and>
   sessionId (handleSendMessage text r (Rejected thrown) state) = sessionId state \<and>
   isLoading (handleSendMessage text r (Rejected thrown) state) = False \<and>
   streamingMessageId (handleSendMessage text r (Rejected thrown) state) = None"
  by (simp add: handleSendMessage_def settle_messages settle_flags settle_sessionId
      begin_messages begin_frame begin_exchange failureUpdates_def spread_message_def)

text \<open>
  Claim C3. The claim asks for a non-empty \<open>error\<close> on the placeholder of every failed
  exchange. When the backend answers with status 422 and an empty list of validation
  errors, the response interceptor joins no texts, \<^verbatim>\<open>postChat\<close> rejects with an
  \<^verbatim>\<open>ApiError\<close> whose message is empty, and the placeholder gets the empty string as
  \<open>error\<close>: by \<open>messageState\<close> it is failed, yet \<^verbatim>\<open>MessageList\<close>, which tests
  \<^verbatim>\<open>message.error\<close> for truth, shows it as a completed message without text.
\<close>

theorem handleSendMessage_empty_error:
  "errorMessage emptyValidation = [] \<and>
   error (last (messages
     (handleSendMessage ''Hello'' readings1 (Rejected (postChat_rejection emptyValidation))
        startState))) = Some []"
proof -
  have empty: "errorMessage emptyValidation = []"
    by (simp add: errorMessage_def emptyValidation_def)
  then show ?thesis
    by (simp add: handleSendMessage_rejected postChat_rejection_def)
qed

section \<open>Ids and timestamps of added messages\<close>

lemma addMessages_messages:
  "messages (addMessages calls state) =
     messages state @ map (\<lambda>(message, uuid, now). newMessage message uuid now) calls"
  by (induction calls state rule: addMessages.induct) (simp_all add: addMessage_def)

lemma created_ids:
  "map id_msg (map (\<lambda>(message, uuid, now). newMessage message uuid now) calls) = map assigned calls"
  by (induction calls) (auto simp: newMessage_def)

lemma created_timestamps:
  "map timestamp (map (\<lambda>(message, uuid, now). newMessage message uuid now) calls) = map clock calls"
  by (induction calls) (auto simp: newMessage_def)

text \<open>
  Claim C4, as amended. Start from a list whose ids are distinct and whose timestamps
  are non-decreasing, and add messages by \<open>addMessage\<close>. If the ids assigned (the
  caller's where one is given, the generated one otherwise) differ from each other and
  from the ids already in the list, the ids of the resulting list are distinct; if the
  clock readings do not decrease from call to call and none is below a timestamp already
  in the list, the timestamps of the resulting list are non-decreasing.
\<close>

theorem addMessages_distinct_sorted:
  assumes "distinct (map id_msg (messages state))"
    and "distinct (map assigned calls)"
    and "set (map assigned calls) \<inter> set (map id_msg (messages state)) = {}"
    and "sorted (map timestamp (messages state))"
    and "sorted (map clock calls)"
    and "\<forall>t \<in> set (map timestamp (messages state)). \<forall>t' \<in> set (map clock calls). t \<le> t'"
  shows "distinct (map id_msg (messages (addMessages calls state))) \<and>
         sorted (map timestamp (messages (addMessages calls state)))"
proof
  have "map id_msg (messages (addMessages calls state)) =
          map id_msg (messages state) @ map assigned calls"
    by (simp add: addMessages_messages created_ids del: map_map)
  with assms(1-3) show "distinct (map id_msg (messages (addMessages calls state)))"
    by (simp add: Int_commute)
next
  have "map timestamp (messages (addMessages calls state)) =
          map timestamp (messages state) @ map clock calls"
    by (simp add: addMessages_messages created_timestamps del: map_map)
  with assms(4-6) show "sorted (map timestamp (messages (addMessages calls state)))"
    by (simp add: sorted_append)
qed

theorem addMessages_distinct_sorted_witness:
  "distinct (map id_msg (messages startState)) \<and>
   distinct (map assigned twoCalls) \<and>
   set (map assigned twoCalls) \<inter> set (map id_msg (messages startState)) = {} \<and>
   sorted (map timestamp (messages startState)) \<and>
   sorted (map clock twoCalls) \<and>
   messages startState = [] \<and>
   map id_msg (messages (addMessages twoCalls startState)) = [''g1'', ''x''] \<and>
   map timestamp (messages (addMessages twoCalls startState)) = [10, 11] \<and>
   distinct (map id_msg (messages (addMessages twoCalls startState))) \<and>
   sorted (map timestamp (messages (addMessages twoCalls startState)))"
proof -
  have empty: "messages startState = []"
    by (simp add: startState_def initialState_def)
  have h1: "distinct (map id_msg (messages startState))"
    and h3: "set (map assigned twoCalls) \<inter> set (map id_msg (messages startState)) = {}"
    and h4: "sorted (map timestamp (messages startState))"
    and h6: "\<forall>t \<in> set (map timestamp (messages startState)). \<forall>t' \<in> set (map clock twoCalls). t \<le> t'"
    by (simp_all add: empty)
  have h2: "distinct (map assigned twoCalls)" and h5: "sorted (map clock twoCalls)"
    by (simp_all add: twoCalls_def hi_def placeholderX_def)
  have ids: "map id_msg (messages (addMessages twoCalls startState)) = [''g1'', ''x'']"
    and times: "map timestamp (messages (addMessages twoCalls startState)) = [10, 11]"
    by (simp_all add: twoCalls_def hi_def placeholderX_def addMessage_def newMessage_def empty)
  from addMessages_distinct_sorted [OF h1 h2 h3 h4 h5 h6] h1 h2 h3 h4 h5 empty ids times
  show ?thesis by blast
qed

text \<open>
  Claim C4 as stated fails: \<open>addMessage\<close> takes the id of its caller as it comes, so two
  calls with the id \<open>x\<close> leave two messages with that id, although the generated ids
  differ and the clock advances.
\<close>

theorem addMessages_same_id_counterexample:
  "\<not> distinct (map id_msg (messages (addMessages sameIdCalls startState)))"
  by (simp add: sameIdCalls_def placeholderX_def addMessage_def newMessage_def
      startState_def initialState_def)

section \<open>One streaming message at a time\<close>

text \<open>The definitions that evaluating a run unfolds.\<close>

lemmas run_defs =
  handleSend_def handleSendMessage_begin_def handleSendMessage_settle_def addMessage_def
  newMessage_def updateMessage_def setLoading_def setStreamingMessageId_def setSessionId_def
  resetSession_def initialState_def startState_def startApp_def trim_def is_space_def
  successUpdates_def failureUpdates_def spread_message_def readings1_def readings2_def
  readings3_def hiThere_def Let_def

lemma coherent_single_streaming: "coherent app \<Longrightarrow> single_streaming (store app)"
proof -
  assume c: "coherent app"
  show ?thesis
  proof (cases "inflight app")
    case Nil
    with c show ?thesis by (simp add: coherent_def single_streaming_def)
  next
    case (Cons ex rest)
    with c have rest: "rest = []" by (cases rest) (simp_all add: coherent_def)
    with c Cons have ids: "map id_msg (filter streaming (messages (store app))) = [agentMessageId ex]"
      and sid: "streamingMessageId (store app) = Some (agentMessageId ex)"
      by (simp_all add: coherent_def)
    from ids have "length (map id_msg (filter streaming (messages (store app)))) = 1" by simp
    then have "length (filter streaming (messages (store app))) \<le> 1" by simp
    with ids sid show ?thesis by (simp add: single_streaming_def)
  qed
qed

lemma spread_not_streaming:
  "upd_isStreaming u = Some (Some False) \<Longrightarrow> \<not> streaming (spread_message m u)"
  by (simp add: streaming_def spread_message_def)

lemma filter_streaming_patched:
  assumes "\<forall>m \<in> set msgs. streaming m \<longrightarrow> id_msg m = p"
    and "upd_isStreaming u = Some (Some False)"
  shows "filter streaming (map (\<lambda>m. if id_msg m = p then spread_message m u else m) msgs) = []"
  using assms by (auto simp: filter_empty_conv spread_not_streaming)

lemma settle_no_streaming:
  assumes "\<forall>m \<in> set (messages state). streaming m \<longrightarrow> id_msg m = agentMessageId ex"
  shows "filter streaming (messages (handleSendMessage_settle ex outcome state)) = []"
proof (cases outcome)
  case (Resolved resp endTime)
  then show ?thesis
    using filter_streaming_patched [OF assms, of "successUpdates ex resp endTime"]
    by (simp add: settle_messages successUpdates_def)
next
  case (Rejected thrown)
  then show ?thesis
    using filter_streaming_patched [OF assms, of "failureUpdates thrown"]
    by (simp add: settle_messages failureUpdates_def)
qed

lemma streaming_ids:
  assumes "map id_msg (filter streaming msgs) = [p]"
  shows "\<forall>m \<in> set msgs. streaming m \<longrightarrow> id_msg m = p"
proof (intro ballI impI)
  fix m assume "m \<in> set msgs" "streaming m"
  then have "id_msg m \<in> set (map id_msg (filter streaming msgs))" by simp
  with assms show "id_msg m = p" by simp
qed

lemma begin_streaming:
  "filter streaming (messages state) = [] \<Longrightarrow>
   map id_msg (filter streaming (messages (fst (handleSendMessage_begin text r state)))) = [uuid_agent r]"
  by (simp add: begin_messages streaming_def)

lemma coherent_step:
  assumes "coherent app" and "calm e app"
  shows "coherent (step e app)"
proof (cases "inflight app")
  case Nil
  with assms(1) have idle: "\<not> isLoading (store app)" "streamingMessageId (store app) = None"
    "filter streaming (messages (store app)) = []"
    by (simp_all add: coherent_def)
  show ?thesis
  proof (cases e)
    case (Send message r)
    with Nil idle show ?thesis
      by (simp add: handleSend_def coherent_def begin_frame begin_exchange begin_streaming)
  next
    case (Settle k outcome)
    with Nil assms(1) show ?thesis by simp
  next
    case (Reset uuid)
    with Nil show ?thesis by (simp add: coherent_def resetSession_def)
  next
    case (Mount uuid now)
    with Nil idle show ?thesis
      by (simp add: coherent_def addMessage_def newMessage_def streaming_def)
  next
    case Clear
    with Nil idle show ?thesis by (simp add: coherent_def clearMessages_def)
  next
    case (SetSession sid)
    with Nil idle show ?thesis by (simp add: coherent_def setSessionId_def)
  next
    case (Preferences p)
    with Nil idle show ?thesis by (simp add: coherent_def updateUserPreferences_def)
  qed
next
  case (Cons ex rest)
  with assms(1) have rest: "rest = []" by (cases rest) (simp_all add: coherent_def)
  with assms(1) Cons have busy: "isLoading (store app)"
    "streamingMessageId (store app) = Some (agentMessageId ex)"
    "map id_msg (filter streaming (messages (store app))) = [agentMessageId ex]"
    by (simp_all add: coherent_def)
  show ?thesis
  proof (cases e)
    case (Send message r)
    with busy assms(1) show ?thesis by (simp add: handleSend_def)
  next
    case (Settle k outcome)
    show ?thesis
    proof (cases k)
      case 0
      with Settle Cons rest show ?thesis
        by (simp add: coherent_def settle_flags settle_no_streaming [OF streaming_ids [OF busy(3)]])
    next
      case (Suc j)
      with Settle Cons rest assms(1) show ?thesis by simp
    qed
  next
    case (Reset uuid)
    with assms(2) busy show ?thesis by simp
  next
    case (Mount uuid now)
    with Cons rest busy show ?thesis
      by (auto simp: coherent_def addMessage_def newMessage_def streaming_def)
  next
    case Clear
    with assms(2) busy show ?thesis by simp
  next
    case (SetSession sid)
    with Cons rest busy show ?thesis by (simp add: coherent_def setSessionId_def)
  next
    case (Preferences p)
    with Cons rest busy show ?thesis by (simp add: coherent_def updateUserPreferences_def)
  qed
qed

lemma coherent_run: "coherent app \<Longrightarrow> calm_run es app \<Longrightarrow> coherent (run es app)"
  by (induction es arbitrary: app) (simp_all add: coherent_step)

text \<open>
  Claim C1, as amended. Start from a coherent application, such as the one right after
  the store is created, and let the events of the application happen (the store
  operations that add and update messages and set the two flags being called by the
  send handler and the mount effect only), provided that the session is reset and the
  messages are cleared only while \<open>isLoading\<close> is false. Then in the state reached at
  most one message is streaming, and \<open>streamingMessageId\<close>, when set, is the id of
  that message. That no exchange starts while \<open>isLoading\<close> is true needs no
  hypothesis: \<open>handleSend\<close> is disabled then.
\<close>

theorem orderly_single_streaming:
  assumes "coherent app" and "calm_run es app"
  shows "single_streaming (store (run es app))"
  using assms by (simp add: coherent_run coherent_single_streaming)

theorem orderly_single_streaming_witness:
  "coherent startApp \<and> calm_run orderlyTrace startApp \<and>
   single_streaming (store (run orderlyTrace startApp)) \<and>
   streamingMessageId (store (run orderlyTrace startApp)) = Some ''a2''"
proof -
  have h1: "coherent startApp"
    by (simp add: coherent_def startApp_def startState_def initialState_def)
  have h2: "calm_run orderlyTrace startApp"
    by (simp add: orderlyTrace_def run_defs)
  have sid: "streamingMessageId (store (run orderlyTrace startApp)) = Some ''a2''"
    by (simp add: orderlyTrace_def run_defs)
  from orderly_single_streaming [OF h1 h2] h1 h2 sid show ?thesis by blast
qed

text \<open>
  Claim C1 as stated fails, in two ways. First, the store does not look at the
  messages it is given: two direct calls of \<open>addMessage\<close> with a streaming message
  leave two streaming messages. Second, within the application: the reset button is not
  disabled while an exchange is in flight, and \<open>resetSession\<close> sets \<open>isLoading\<close> to
  false. So: send, reset, send again (the first exchange is still suspended), let the
  first exchange settle (its \<^verbatim>\<open>finally\<close> sets \<open>isLoading\<close> to false while the second
  placeholder is still streaming), send a third time. Every exchange starts while
  \<open>isLoading\<close> is false and every generated id is fresh, and two placeholders are
  streaming at the end.
\<close>

theorem single_streaming_counterexample:
  "\<not> single_streaming (addMessages twoPlaceholders startState) \<and>
   fresh_run raceTrace startApp \<and>
   map isStreaming (messages (store (run raceTrace startApp))) =
     [None, Some True, None, Some True] \<and>
   \<not> single_streaming (store (run raceTrace startApp))"
proof -
  have direct: "\<not> single_streaming (addMessages twoPlaceholders startState)"
    by (simp add: single_streaming_def streaming_def twoPlaceholders_def addMessage_def
        newMessage_def startState_def initialState_def)
  have flags: "map isStreaming (messages (store (run raceTrace startApp))) =
     [None, Some True, None, Some True]"
    by (simp add: raceTrace_def run_defs)
  have "filter streaming (messages (store (run raceTrace startApp))) =
        filter (\<lambda>m. isStreaming m = Some True) (messages (store (run raceTrace startApp)))"
    by (simp add: streaming_def [abs_def])
  then have "length (filter streaming (messages (store (run raceTrace startApp)))) =
     length (filter (\<lambda>b. b = Some True) (map isStreaming (messages (store (run raceTrace startApp)))))"
    by (simp add: filter_map comp_def)
  then have two: "length (filter streaming (messages (store (run raceTrace startApp)))) = 2"
    by (simp add: flags)
  have fr: "fresh_run raceTrace startApp"
    by (simp add: raceTrace_def used_def run_defs)
  from two have "\<not> single_streaming (store (run raceTrace startApp))"
    by (simp add: single_streaming_def)
  with direct fr flags show ?thesis by blast
qed

section \<open>Completed and failed messages stay as they are\<close>

lemma spread_keeps_id: "upd_id u = None \<Longrightarrow> id_msg (spread_message m u) = id_msg m"
  by (simp add: spread_message_def)

lemma settle_nth:
  assumes "k < length (messages state)"
  shows "id_msg (messages (handleSendMessage_settle ex outcome state) ! k) = id_msg (messages state ! k)"
    and "id_msg (messages state ! k) \<noteq> agentMessageId ex \<Longrightarrow>
         messages (handleSendMessage_settle ex outcome state) ! k = messages state ! k"
  using assms
  by (cases outcome; simp add: settle_messages spread_keeps_id successUpdates_def failureUpdates_def)+

lemma settle_length:
  "length (messages (handleSendMessage_settle ex outcome state)) = length (messages state)"
  by (cases outcome) (simp_all add: settle_messages)

lemma others_differ:
  assumes "distinct (map f xs)" and "k < length xs"
    and "x \<in> set (take k xs @ drop (Suc k) xs)"
  shows "f x \<noteq> f (xs ! k)"
proof -
  have "xs = take k xs @ xs ! k # drop (Suc k) xs"
    using assms(2) by (rule id_take_nth_drop)
  then have "distinct (map f (take k xs @ xs ! k # drop (Suc k) xs))"
    using assms(1) by simp
  then have out: "f (xs ! k) \<notin> f ` set (take k xs) \<union> f ` set (drop (Suc k) xs)"
    by auto
  from assms(3) have "f x \<in> f ` set (take k xs) \<union> f ` set (drop (Suc k) xs)"
    by auto
  with out show ?thesis by metis
qed

lemma distinct_others:
  assumes "distinct (map f xs)"
  shows "distinct (map f (take k xs @ drop (Suc k) xs))"
proof (cases "k < length xs")
  case True
  then have "xs = take k xs @ xs ! k # drop (Suc k) xs"
    by (rule id_take_nth_drop)
  then have "distinct (map f (take k xs @ xs ! k # drop (Suc k) xs))"
    using assms by simp
  then show ?thesis by auto
next
  case False
  with assms show ?thesis by simp
qed

lemma settled_kept_step:
  assumes "awaiting app"
    and "k < length (messages (store app))"
    and "k < length (messages (store (step e app)))"
    and "messageState (messages (store app) ! k) = Some Completed \<or>
         messageState (messages (store app) ! k) = Some Failed"
  shows "messages (store (step e app)) ! k = messages (store app) ! k"
proof (cases e)
  case (Send message r)
  with assms(2) show ?thesis by (simp add: handleSend_def begin_messages nth_append)
next
  case (Settle j outcome)
  show ?thesis
  proof (cases "j < length (inflight app)")
    case True
    have "id_msg (messages (store app) ! k) \<noteq> agentMessageId (inflight app ! j)"
    proof
      assume "id_msg (messages (store app) ! k) = agentMessageId (inflight app ! j)"
      with assms(1) nth_mem [OF assms(2)] nth_mem [OF True]
      have "messageState (messages (store app) ! k) = Some Streaming"
        unfolding awaiting_def by blast
      with assms(4) show False by simp
    qed
    with Settle True assms(2) show ?thesis by (simp add: settle_nth)
  next
    case False
    with Settle show ?thesis by simp
  qed
next
  case (Reset uuid)
  with assms(3) show ?thesis by (simp add: resetSession_def)
next
  case (Mount uuid now)
  with assms(2) show ?thesis by (auto simp: addMessage_def nth_append)
next
  case Clear
  with assms(3) show ?thesis by (simp add: clearMessages_def)
next
  case (SetSession sid)
  then show ?thesis by (simp add: setSessionId_def)
next
  case (Preferences p)
  then show ?thesis by (simp add: updateUserPreferences_def)
qed

lemma awaiting_step:
  assumes "awaiting app" and "fresh e app"
  shows "awaiting (step e app)"
proof (cases e)
  case (Send message r)
  show ?thesis
  proof (cases "trim message \<noteq> [] \<and> \<not> isLoading (store app)")
    case True
    from assms(2) Send have f: "uuid_user r \<notin> used app" "uuid_agent r \<notin> used app"
      "uuid_user r \<noteq> uuid_agent r" by simp_all
    have new_msgs:
      "\<forall>m \<in> set (messages (store app)). id_msg m \<noteq> uuid_user r \<and> id_msg m \<noteq> uuid_agent r"
    proof
      fix m assume "m \<in> set (messages (store app))"
      then have "id_msg m \<in> used app" by (simp add: used_def)
      with f(1,2) show "id_msg m \<noteq> uuid_user r \<and> id_msg m \<noteq> uuid_agent r" by metis
    qed
    have new_exs:
      "\<forall>ex \<in> set (inflight app). agentMessageId ex \<noteq> uuid_user r \<and> agentMessageId ex \<noteq> uuid_agent r"
    proof
      fix ex assume "ex \<in> set (inflight app)"
      then have "agentMessageId ex \<in> used app" by (simp add: used_def)
      with f(1,2) show "agentMessageId ex \<noteq> uuid_user r \<and> agentMessageId ex \<noteq> uuid_agent r"
        by metis
    qed
    have placeholder: "messageState
        \<lparr> id_msg = uuid_agent r, role = Agent, content = [], timestamp = now_agent r,
          toolsUsed = None, processingTime = None, isStreaming = Some True, error = None \<rparr>
        = Some Streaming"
      by (simp add: messageState_def)
    from assms(1) have d: "distinct (map agentMessageId (inflight app))"
      and old: "\<forall>ex \<in> set (inflight app). \<forall>m \<in> set (messages (store app)).
         id_msg m = agentMessageId ex \<longrightarrow> messageState m = Some Streaming"
      by (simp_all add: awaiting_def)
    from True Send d old new_msgs new_exs f(3) placeholder show ?thesis
      by (auto simp: handleSend_def awaiting_def begin_messages begin_exchange)
  next
    case False
    with Send assms(1) show ?thesis by (auto simp: handleSend_def)
  qed
next
  case (Settle j outcome)
  show ?thesis
  proof (cases "j < length (inflight app)")
    case True
    let ?rest = "take j (inflight app) @ drop (Suc j) (inflight app)"
    from assms(1) have d: "distinct (map agentMessageId (inflight app))" by (simp add: awaiting_def)
    have "distinct (map agentMessageId ?rest)" using d by (rule distinct_others)
    moreover have "\<forall>ex \<in> set ?rest. \<forall>m \<in> set (messages (handleSendMessage_settle (inflight app ! j) outcome (store app))).
         id_msg m = agentMessageId ex \<longrightarrow> messageState m = Some Streaming"
    proof (intro ballI impI)
      fix ex m
      assume ex: "ex \<in> set ?rest"
        and m: "m \<in> set (messages (handleSendMessage_settle (inflight app ! j) outcome (store app)))"
        and same: "id_msg m = agentMessageId ex"
      from ex have ex_in: "ex \<in> set (inflight app)"
        by (auto dest: in_set_takeD in_set_dropD)
      from others_differ [OF d True ex] have ne: "agentMessageId ex \<noteq> agentMessageId (inflight app ! j)" .
      from m obtain k where k: "k < length (messages (store app))"
        and mk: "m = messages (handleSendMessage_settle (inflight app ! j) outcome (store app)) ! k"
        by (auto simp: in_set_conv_nth settle_length)
      from k mk same have "id_msg (messages (store app) ! k) = agentMessageId ex"
        by (simp add: settle_nth(1))
      moreover from this ne k mk have "m = messages (store app) ! k"
        by (simp add: settle_nth(2))
      ultimately show "messageState m = Some Streaming"
        using assms(1) ex_in nth_mem [OF k] unfolding awaiting_def by metis
    qed
    ultimately show ?thesis using Settle True by (simp add: awaiting_def)
  next
    case False
    with Settle assms(1) show ?thesis by simp
  qed
next
  case (Reset uuid)
  with assms(1) show ?thesis by (simp add: awaiting_def resetSession_def)
next
  case (Mount uuid now)
  with assms(2) have u: "uuid \<notin> used app" by simp
  have "\<forall>ex \<in> set (inflight app). agentMessageId ex \<noteq> uuid"
  proof
    fix ex assume "ex \<in> set (inflight app)"
    then have "agentMessageId ex \<in> used app" by (simp add: used_def)
    with u show "agentMessageId ex \<noteq> uuid" by metis
  qed
  with Mount assms(1) show ?thesis
    by (auto simp: awaiting_def addMessage_def newMessage_def)
next
  case Clear
  with assms(1) show ?thesis by (simp add: awaiting_def clearMessages_def)
next
  case (SetSession sid)
  with assms(1) show ?thesis by (simp add: awaiting_def setSessionId_def)
next
  case (Preferences p)
  with assms(1) show ?thesis by (simp add: awaiting_def updateUserPreferences_def)
qed

lemma awaiting_run: "awaiting app \<Longrightarrow> fresh_run es app \<Longrightarrow> awaiting (run es app)"
  by (induction es arbitrary: app) (simp_all add: awaiting_step)

text \<open>
  Claim C9. Start from an application in which the placeholders of the suspended
  exchanges are streaming (such as the one right after the store is created) and let
  events happen in which every generated id is fresh. In the state reached take a
  message that is completed or failed. Whatever event comes next, if the list still has
  the position of that message afterwards, the message there is the same, field by
  field: it is not made streaming again and does not pass from completed to failed or
  back. (The list loses the position only when it is emptied by a reset or a clear.)
\<close>

theorem settled_messages_kept:
  assumes "awaiting app" and "fresh_run es app"
    and "k < length (messages (store (run es app)))"
    and "k < length (messages (store (step e (run es app))))"
    and "messageState (messages (store (run es app)) ! k) = Some Completed \<or>
         messageState (messages (store (run es app)) ! k) = Some Failed"
  shows "messages (store (step e (run es app))) ! k = messages (store (run es app)) ! k"
  using awaiting_run [OF assms(1,2)] assms(3-5) by (rule settled_kept_step)

theorem settled_messages_kept_witness:
  "awaiting startApp \<and> fresh_run secondTrace startApp \<and>
   (1::nat) < length (messages (store (run secondTrace startApp))) \<and>
   (1::nat) < length (messages (store (step (Settle 0 (Rejected OtherValue)) (run secondTrace startApp)))) \<and>
   messageState (messages (store (run secondTrace startApp)) ! 1) = Some Completed \<and>
   messageState (messages (store (run secondTrace startApp)) ! 3) = Some Streaming \<and>
   messages (store (step (Settle 0 (Rejected OtherValue)) (run secondTrace startApp))) ! 1 =
     messages (store (run secondTrace startApp)) ! 1 \<and>
   messageState (messages (store (step (Settle 0 (Rejected OtherValue)) (run secondTrace startApp))) ! 3) =
     Some Failed"
proof -
  have h1: "awaiting startApp"
    by (simp add: awaiting_def startApp_def)
  have h2: "fresh_run secondTrace startApp"
    by (simp add: secondTrace_def used_def run_defs)
  have h3: "(1::nat) < length (messages (store (run secondTrace startApp)))"
    by (simp add: secondTrace_def run_defs)
  have h4: "(1::nat) < length (messages (store (step (Settle 0 (Rejected OtherValue)) (run secondTrace startApp))))"
    by (simp add: secondTrace_def run_defs)
  have c: "messageState (messages (store (run secondTrace startApp)) ! 1) = Some Completed"
    by (simp add: secondTrace_def messageState_def run_defs)
  have s3: "messageState (messages (store (run secondTrace startApp)) ! 3) = Some Streaming"
    by (simp add: secondTrace_def messageState_def run_defs)
  have f3: "messageState (messages (store (step (Settle 0 (Rejected OtherValue)) (run secondTrace startApp))) ! 3) =
     Some Failed"
    by (simp add: secondTrace_def messageState_def run_defs)
  from settled_messages_kept [OF h1 h2 h3 h4 disjI1 [OF c]] h1 h2 h3 h4 c s3 f3
  show ?thesis by blast
qed

end
